theory Spec2Isabelle
  imports Main "HOL-Library.Word" "HOL-Library.Sublist"
begin

section \<open>JavaScript values used by the shopping and planner utilities\<close>

text \<open>
  A JavaScript string is a sequence of 16-bit code units. Literals of the source are
  written with \<open>lit\<close>, which maps each character of an Isabelle string to its code unit.
\<close>

type_synonym jschar = "16 word"
type_synonym jsstring = "jschar list"

definition lit :: "string \<Rightarrow> jsstring" where
  "lit s = map of_char s"

text \<open>
  \<open>String(index)\<close> for an array index: the decimal digits of a natural number, without
  leading zeros. Array indices are below \<open>2 ^ 32\<close>, far from the exponent notation
  that JavaScript uses from \<open>1e21\<close> on.
\<close>

definition digit_char :: "nat \<Rightarrow> jschar" where
  "digit_char d = of_nat (48 + d)"

fun number_to_string :: "nat \<Rightarrow> jsstring" where
  "number_to_string n =
     (if n < 10 then [digit_char n]
      else number_to_string (n div 10) @ [digit_char (n mod 10)])"

declare number_to_string.simps [simp del]

text \<open>
  Truthiness of the value read from a \<open>Record<string, boolean>\<close>: a missing key
  reads as \<open>undefined\<close> (here \<open>None\<close>), which is falsy like \<open>false\<close>. The keys looked up
  by this module end in a hyphen followed by decimal digits, so no property inherited
  from \<open>Object.prototype\<close> is ever read.
\<close>

definition truthy :: "bool option \<Rightarrow> bool" where
  "truthy v = (v = Some True)"

subsection \<open>Objects as ordered property lists\<close>

text \<open>
  An object with string keys is the list of its own properties in the order in which
  \<open>Object.entries\<close> enumerates them: the array-index keys (canonical decimal strings
  below \<open>2 ^ 32 - 1\<close>) first, in ascending numeric order, then every other key in
  insertion order.
\<close>

type_synonym 'v jsobject = "(jsstring \<times> 'v) list"

definition is_digit :: "jschar \<Rightarrow> bool" where
  "is_digit c = (48 \<le> c \<and> c \<le> 57)"

definition index_value :: "jsstring \<Rightarrow> nat" where
  "index_value k = foldl (\<lambda>acc c. 10 * acc + (unat c - 48)) 0 k"

definition is_array_index :: "jsstring \<Rightarrow> bool" where
  "is_array_index k =
     (k \<noteq> [] \<and> list_all is_digit k \<and> (hd k \<noteq> 48 \<or> length k = 1)
      \<and> index_value k < 4294967295)"

text \<open>\<open>key_precedes k k'\<close>: the key \<open>k\<close> may be enumerated before the key \<open>k'\<close>.\<close>

definition key_precedes :: "jsstring \<Rightarrow> jsstring \<Rightarrow> bool" where
  "key_precedes k k' =
     (if is_array_index k' then is_array_index k \<and> index_value k < index_value k'
      else True)"

definition wf_object :: "'v jsobject \<Rightarrow> bool" where
  "wf_object obj = (distinct (map fst obj) \<and> sorted_wrt key_precedes (map fst obj))"

definition object_entries :: "'v jsobject \<Rightarrow> (jsstring \<times> 'v) list" where
  "object_entries obj = obj"

definition object_values :: "'v jsobject \<Rightarrow> 'v list" where
  "object_values obj = map snd obj"

text \<open>
  \<open>CreateDataProperty\<close>: an existing key keeps its place and takes the new value; a new
  array-index key goes among the array-index keys at its numeric position; any other
  new key goes to the end.
\<close>

definition create_data_property :: "jsstring \<Rightarrow> 'v \<Rightarrow> 'v jsobject \<Rightarrow> 'v jsobject" where
  "create_data_property k v obj =
     (if k \<in> set (map fst obj) then map (\<lambda>(k', v'). if k' = k then (k', v) else (k', v')) obj
      else if is_array_index k then
        takeWhile (\<lambda>(k', _). key_precedes k' k) obj @ [(k, v)]
          @ dropWhile (\<lambda>(k', _). key_precedes k' k) obj
      else obj @ [(k, v)])"

definition object_from_entries :: "(jsstring \<times> 'v) list \<Rightarrow> 'v jsobject" where
  "object_from_entries es = foldl (\<lambda>obj (k, v). create_data_property k v obj) [] es"

text \<open>
  \<open>Array.prototype.filter\<close> with a callback that receives the element and its index:
  the elements are visited from index \<open>k\<close> upwards.
\<close>

fun array_filter_from :: "nat \<Rightarrow> ('a \<Rightarrow> nat \<Rightarrow> bool) \<Rightarrow> 'a list \<Rightarrow> 'a list" where
  "array_filter_from k p [] = []"
| "array_filter_from k p (x # xs) =
     (if p x k then x # array_filter_from (Suc k) p xs else array_filter_from (Suc k) p xs)"

definition array_filter :: "('a \<Rightarrow> nat \<Rightarrow> bool) \<Rightarrow> 'a list \<Rightarrow> 'a list" where
  "array_filter p xs = array_filter_from 0 p xs"

section \<open>shopping-utils\<close>

record ShoppingItem =
  name :: jsstring
  amount :: jsstring
  checked :: "bool option"

type_synonym ShoppingList = "ShoppingItem list jsobject"
type_synonym RemainingItemsByCategory = "ShoppingItem list jsobject"
type_synonym CheckedItems = "jsstring \<Rightarrow> bool option"

text \<open>The template literal \<open>`${category}-${index}`\<close>.\<close>

definition checked_key :: "jsstring \<Rightarrow> nat \<Rightarrow> jsstring" where
  "checked_key category index = category @ lit ''-'' @ number_to_string index"

definition getRemainingItemsByCategory ::
  "ShoppingList option \<Rightarrow> CheckedItems \<Rightarrow> RemainingItemsByCategory" where
  "getRemainingItemsByCategory shoppingList checkedItems =
     (case shoppingList of
        None \<Rightarrow> []
      | Some l \<Rightarrow>
          let entries =
            filter (\<lambda>(_, items). length items > 0)
              (map (\<lambda>(category, items).
                      (category,
                       array_filter
                         (\<lambda>_ index. \<not> truthy (checkedItems (checked_key category index)))
                         items))
                 (object_entries l))
          in object_from_entries entries)"

definition countRemainingItems :: "RemainingItemsByCategory \<Rightarrow> int" where
  "countRemainingItems remaining =
     foldl (\<lambda>sum items. sum + int (length items)) 0 (object_values remaining)"

text \<open>
  The positions \<open>(category, i)\<close> of a shopping list that satisfy \<open>P\<close>, and the lists the
  functions accept: \<open>null\<close> or an object.
\<close>

definition unchecked_pairs :: "ShoppingList \<Rightarrow> (jsstring \<Rightarrow> nat \<Rightarrow> bool) \<Rightarrow> (jsstring \<times> nat) set" where
  "unchecked_pairs l P = {(c, i). \<exists>items. (c, items) \<in> set l \<and> i < length items \<and> P c i}"

definition wf_shopping_list :: "ShoppingList option \<Rightarrow> bool" where
  "wf_shopping_list shoppingList =
     (case shoppingList of None \<Rightarrow> True | Some l \<Rightarrow> wf_object l)"

text \<open>
  \<open>Array.prototype.join\<close> on an array of strings, and \<open>String.prototype.trim\<close>, which
  removes the code units of \<open>WhiteSpace\<close> and \<open>LineTerminator\<close> from both ends.
\<close>

fun array_join :: "jsstring \<Rightarrow> jsstring list \<Rightarrow> jsstring" where
  "array_join sep [] = []"
| "array_join sep [x] = x"
| "array_join sep (x # y # ys) = x @ sep @ array_join sep (y # ys)"

definition is_white_space :: "jschar \<Rightarrow> bool" where
  "is_white_space c =
     (c \<in> set [0x9, 0xA, 0xB, 0xC, 0xD, 0x20, 0xA0, 0x1680, 0x2028, 0x2029, 0x202F,
               0x205F, 0x3000, 0xFEFF]
      \<or> (0x2000 \<le> c \<and> c \<le> 0x200A))"

definition trim :: "jsstring \<Rightarrow> jsstring" where
  "trim s = rev (dropWhile is_white_space (rev (dropWhile is_white_space s)))"

text \<open>The header line of the source; its twelfth code unit is U+00F3 (o with acute accent).\<close>

definition share_header :: jsstring where
  "share_header = lit ''Lista zakup'' @ [0xF3] @ lit ''w (do kupienia):''"

definition item_line :: "ShoppingItem \<Rightarrow> jsstring" where
  "item_line item =
     (let suffix = (if amount item \<noteq> [] then lit '' ('' @ amount item @ lit '')'' else [])
      in lit ''- '' @ name item @ suffix)"

text \<open>The two nested \<open>forEach\<close> loops, each \<open>push\<close> appending one line.\<close>

definition push_items :: "jsstring list \<Rightarrow> ShoppingItem list \<Rightarrow> jsstring list" where
  "push_items lines items = foldl (\<lambda>ls item. ls @ [item_line item]) lines items"

definition push_category :: "jsstring list \<Rightarrow> jsstring \<times> ShoppingItem list \<Rightarrow> jsstring list" where
  "push_category lines entry =
     (case entry of (category, items) \<Rightarrow> push_items ((lines @ [[]]) @ [category]) items)"

definition share_lines :: "RemainingItemsByCategory \<Rightarrow> jsstring list" where
  "share_lines remaining = foldl push_category [share_header] (object_entries remaining)"

definition buildShareText :: "RemainingItemsByCategory \<Rightarrow> jsstring" where
  "buildShareText remaining = trim (array_join [0xA] (share_lines remaining))"

record PrintLayoutConfig =
  columns :: int
  fontSize :: int

definition total_lines :: "RemainingItemsByCategory \<Rightarrow> int" where
  "total_lines remaining =
     foldl (\<lambda>sum items. sum + int (length items) + 1) 0 (object_values remaining)"

definition getPrintLayoutConfig :: "RemainingItemsByCategory \<Rightarrow> PrintLayoutConfig" where
  "getPrintLayoutConfig remaining =
     (let totalLines = total_lines remaining;
          columns = (if totalLines > 40 then 3 else 2);
          fontSize = (if totalLines > 60 then 9 else if totalLines > 45 then 10
                      else if totalLines > 30 then 11 else 12)
      in \<lparr>columns = columns, fontSize = fontSize\<rparr>)"

section \<open>planner-utils\<close>

text \<open>\<open>Array.prototype.indexOf\<close>: the first index holding the element, or \<open>-1\<close>.\<close>

fun index_of_from :: "int \<Rightarrow> 'a list \<Rightarrow> 'a \<Rightarrow> int" where
  "index_of_from k [] x = -1"
| "index_of_from k (y # ys) x = (if y = x then k else index_of_from (k + 1) ys x)"

definition index_of :: "'a list \<Rightarrow> 'a \<Rightarrow> int" where
  "index_of xs x = index_of_from 0 xs x"

text \<open>
  The \<open>for\<close> loop of \<open>getNextAvailableDay\<close>, entered at \<open>offset\<close>. \<open>None\<close> is the loop
  running out without a \<open>return\<close>. The index is in range whenever the loop body runs
  from \<open>getNextAvailableDay\<close>: \<open>weekDays\<close> is non-empty and \<open>startIndex + offset\<close> is not
  negative there.
\<close>

function scan_days :: "jsstring set \<Rightarrow> jsstring list \<Rightarrow> int \<Rightarrow> int \<Rightarrow> jsstring option" where
  "scan_days assignedSet weekDays startIndex offset =
     (if offset \<le> int (length weekDays) then
        (let candidate = weekDays ! nat ((startIndex + offset) mod int (length weekDays))
         in if candidate \<notin> assignedSet then Some candidate
            else scan_days assignedSet weekDays startIndex (offset + 1))
      else None)"
  by pat_completeness auto
termination
  by (relation "measure (\<lambda>(assignedSet, weekDays, startIndex, offset).
        nat (int (length weekDays) + 1 - offset))") auto

declare scan_days.simps [simp del]

definition getNextAvailableDay :: "jsstring list \<Rightarrow> jsstring list \<Rightarrow> jsstring \<Rightarrow> jsstring option" where
  "getNextAvailableDay assignedDays weekDays currentDay =
     (if length weekDays = 0 then None
      else let assignedSet = set assignedDays in
        if card assignedSet \<ge> length weekDays then None
        else let startIndex = index_of weekDays currentDay in
          if startIndex = -1 then None
          else (case scan_days assignedSet weekDays startIndex 1 of
                  Some candidate \<Rightarrow> Some candidate
                | None \<Rightarrow> None))"

text \<open>
  The scan order in the words of the specification: the days met when starting at the
  position after index \<open>i\<close> and going through \<open>weekDays\<close> circularly for
  \<open>length weekDays\<close> steps.
\<close>

definition circular_scan :: "'a list \<Rightarrow> nat \<Rightarrow> 'a list" where
  "circular_scan w i = map (\<lambda>offset. w ! ((i + offset) mod length w)) [1..<Suc (length w)]"

section \<open>Example values\<close>

text \<open>The shopping list and the checked map of the repository's own test.\<close>

definition shopping_item :: "jsstring \<Rightarrow> jsstring \<Rightarrow> ShoppingItem" where
  "shopping_item n a = \<lparr>name = n, amount = a, checked = None\<rparr>"

definition example_list :: ShoppingList where
  "example_list =
     [(lit ''Warzywa'', [shopping_item (lit ''Cebula'') (lit ''2 szt''),
                         shopping_item (lit ''Marchew'') []]),
      (lit ''Nabial'', [shopping_item (lit ''Mleko'') (lit ''1 l'')])]"

definition example_checked :: CheckedItems where
  "example_checked = [lit ''Warzywa-1'' \<mapsto> True]"

text \<open>A remaining object with one category of \<open>n\<close> items, as in the layout test.\<close>

definition one_category :: "nat \<Rightarrow> RemainingItemsByCategory" where
  "one_category n = [(lit ''Produkty'', replicate n (shopping_item (lit ''Item'') []))]"

text \<open>
  An item whose amount is a single space, and the remaining object of the share-text test.
\<close>

definition salt_item :: ShoppingItem where
  "salt_item = shopping_item (lit ''Sol'') (lit '' '')"

definition example_remaining :: RemainingItemsByCategory where
  "example_remaining =
     [(lit ''Warzywa'', [shopping_item (lit ''Cebula'') (lit ''2 szt'')]),
      (lit ''Nabial'', [shopping_item (lit ''Mleko'') (lit ''1 l'')])]"

text \<open>The week of the planner tests, Monday first.\<close>

definition week7 :: "jsstring list" where
  "week7 = [lit ''Mon'', lit ''Tue'', lit ''Wed'', lit ''Thu'', lit ''Fri'', lit ''Sat'', lit ''Sun'']"

section \<open>Properties of the object model\<close>

lemma array_filter_from_nths:
  "array_filter_from k p xs = nths xs {i. p (xs ! i) (k + i)}"
proof (induction xs arbitrary: k)
  case Nil
  then show ?case by simp
next
  case (Cons x xs)
  show ?case
    by (simp add: nths_Cons Cons.IH)
qed

lemma array_filter_index_nths:
  "array_filter (\<lambda>_ index. P index) xs = nths xs {i. P i}"
  by (simp add: array_filter_def array_filter_from_nths)

lemma create_data_property_last:
  assumes "wf_object (obj @ [(k, v)])"
  shows "create_data_property k v obj = obj @ [(k, v)]"
proof -
  from assms have notin: "k \<notin> set (map fst obj)"
    and prec: "\<forall>k' \<in> set (map fst obj). key_precedes k' k"
    by (auto simp: wf_object_def sorted_wrt_append)
  from prec have tw: "takeWhile (\<lambda>(k', _). key_precedes k' k) obj = obj"
    by (intro takeWhile_eq_all_conv[THEN iffD2]) auto
  from prec have dw: "dropWhile (\<lambda>(k', _). key_precedes k' k) obj = []"
    by (intro dropWhile_eq_Nil_conv[THEN iffD2]) auto
  show ?thesis
    using notin by (simp add: create_data_property_def tw dw)
qed

lemma wf_object_prefix: "wf_object (xs @ ys) \<Longrightarrow> wf_object xs"
  by (simp add: wf_object_def sorted_wrt_append)

lemma object_from_entries_wf: "wf_object es \<Longrightarrow> object_from_entries es = es"
proof (induction es rule: rev_induct)
  case Nil
  then show ?case by (simp add: object_from_entries_def)
next
  case (snoc e es)
  obtain k v where e: "e = (k, v)" by (cases e)
  from snoc.prems have "wf_object es" by (rule wf_object_prefix)
  then have "object_from_entries es = es" by (rule snoc.IH)
  then have "object_from_entries (es @ [e]) = create_data_property k v es"
    by (simp add: object_from_entries_def e)
  also have "\<dots> = es @ [e]"
    using snoc.prems unfolding e by (rule create_data_property_last)
  finally show ?case .
qed

lemma wf_object_filter: "wf_object obj \<Longrightarrow> wf_object (filter P obj)"
  by (simp add: wf_object_def distinct_map_filter sorted_wrt_filter sorted_wrt_map)

lemma wf_object_map_values:
  "wf_object obj \<Longrightarrow> wf_object (map (\<lambda>(k, v). (k, f k v)) obj)"
  by (simp add: wf_object_def comp_def case_prod_unfold)

lemmas object_defs = wf_object_def key_precedes_def is_array_index_def is_digit_def
  index_value_def create_data_property_def object_from_entries_def object_entries_def
  object_values_def

lemmas remaining_defs = getRemainingItemsByCategory_def array_filter_def checked_key_def
  number_to_string.simps digit_char_def truthy_def

lemma wf_example_list: "wf_object example_list"
  by (simp add: example_list_def object_defs lit_def)

lemma remaining_example:
  "getRemainingItemsByCategory (Some example_list) example_checked =
     [(lit ''Warzywa'', [shopping_item (lit ''Cebula'') (lit ''2 szt'')]),
      (lit ''Nabial'', [shopping_item (lit ''Mleko'') (lit ''1 l'')])]"
  by (simp add: example_list_def example_checked_def remaining_defs object_defs lit_def)

section \<open>Properties of shopping-utils\<close>

lemma remaining_of_wf_object:
  assumes "wf_object shoppingList"
  shows "getRemainingItemsByCategory (Some shoppingList) checkedItems =
     filter (\<lambda>(category, kept). kept \<noteq> [])
       (map (\<lambda>(category, items).
               (category, nths items {i. \<not> truthy (checkedItems (checked_key category i))}))
          shoppingList)"
proof -
  let ?kept = "\<lambda>category items.
      nths items {i. \<not> truthy (checkedItems (checked_key category i))}"
  let ?entries = "filter (\<lambda>(category, kept). kept \<noteq> [])
      (map (\<lambda>(category, items). (category, ?kept category items)) shoppingList)"
  have "wf_object ?entries"
    by (intro wf_object_filter wf_object_map_values assms)
  then have "object_from_entries ?entries = ?entries"
    by (rule object_from_entries_wf)
  then show ?thesis
    by (simp add: getRemainingItemsByCategory_def object_entries_def array_filter_index_nths)
qed


text \<open>
  C1. For a shopping list that is not null, \<open>getRemainingItemsByCategory\<close> keeps the item at
  zero-based index \<open>i\<close> of category \<open>c\<close> exactly when the key \<open>c-i\<close> is not truthy in the
  checked map. The categories come in the enumeration order of the list, the kept items
  of a category in their original order (\<open>nths\<close> selects by index and keeps the order),
  and a category that keeps no item is left out.
\<close>

theorem getRemainingItemsByCategory_keeps_unchecked:
  assumes "wf_object shoppingList"
  shows "getRemainingItemsByCategory (Some shoppingList) checkedItems =
     filter (\<lambda>(category, kept). kept \<noteq> [])
       (map (\<lambda>(category, items).
               (category, nths items {i. \<not> truthy (checkedItems (checked_key category i))}))
          shoppingList)"
  using assms by (rule remaining_of_wf_object)

theorem getRemainingItemsByCategory_keeps_unchecked_witness:
  "wf_object example_list \<and>
   getRemainingItemsByCategory (Some example_list) example_checked =
     filter (\<lambda>(category, kept). kept \<noteq> [])
       (map (\<lambda>(category, items).
               (category, nths items {i. \<not> truthy (example_checked (checked_key category i))}))
          example_list) \<and>
   getRemainingItemsByCategory (Some example_list) example_checked =
     [(lit ''Warzywa'', [shopping_item (lit ''Cebula'') (lit ''2 szt'')]),
      (lit ''Nabial'', [shopping_item (lit ''Mleko'') (lit ''1 l'')])]"
  using getRemainingItemsByCategory_keeps_unchecked [OF wf_example_list, of example_checked]
    wf_example_list remaining_example
  by blast

text \<open>
  C8. For a null shopping list \<open>getRemainingItemsByCategory\<close> returns the object without
  properties, whatever the checked map is; the result is a value, not an error.
\<close>

theorem getRemainingItemsByCategory_null:
  "getRemainingItemsByCategory None checkedItems = []"
  by (simp add: getRemainingItemsByCategory_def)

theorem getRemainingItemsByCategory_null_witness:
  "getRemainingItemsByCategory None example_checked = [] \<and>
   getRemainingItemsByCategory None Map.empty = []"
  using getRemainingItemsByCategory_null [of example_checked]
    getRemainingItemsByCategory_null [of Map.empty]
  by simp


lemma foldl_add_length:
  "foldl (\<lambda>sum items. sum + int (length items)) a xs = a + (\<Sum>x\<leftarrow>xs. int (length x))"
  by (induction xs arbitrary: a) simp_all

lemma countRemainingItems_sum:
  "countRemainingItems remaining = (\<Sum>e\<leftarrow>remaining. int (length (snd e)))"
  by (simp add: countRemainingItems_def object_values_def foldl_add_length comp_def)

lemma sum_length_drop_empty:
  "(\<Sum>e\<leftarrow>filter (\<lambda>(category, kept). kept \<noteq> []) es. int (length (snd e)))
     = (\<Sum>e\<leftarrow>es. int (length (snd e)))"
  by (rule sum_list_map_filter) auto

lemma count_remaining_sum:
  assumes "wf_object shoppingList"
  shows "countRemainingItems (getRemainingItemsByCategory (Some shoppingList) checkedItems) =
    (\<Sum>(category, items)\<leftarrow>shoppingList.
        int (length (nths items {i. \<not> truthy (checkedItems (checked_key category i))})))"
  unfolding remaining_of_wf_object [OF assms] countRemainingItems_sum
    sum_length_drop_empty
  by (simp add: comp_def case_prod_unfold)

lemma unchecked_pairs_Cons:
  "unchecked_pairs ((c, items) # l) P =
     Pair c ` {i. i < length items \<and> P c i} \<union> unchecked_pairs l P"
  by (auto simp: unchecked_pairs_def)

lemma finite_unchecked_pairs: "finite (unchecked_pairs l P)"
  by (induction l) (auto simp: unchecked_pairs_Cons, simp add: unchecked_pairs_def)

lemma card_unchecked_pairs:
  "distinct (map fst l) \<Longrightarrow>
   card (unchecked_pairs l P) = (\<Sum>(c, items)\<leftarrow>l. card {i. i < length items \<and> P c i})"
proof (induction l)
  case Nil
  then show ?case by (simp add: unchecked_pairs_def)
next
  case (Cons e l)
  obtain c items where e: "e = (c, items)" by (cases e)
  from Cons.prems have notin: "c \<notin> fst ` set l" and dist: "distinct (map fst l)"
    by (simp_all add: e)
  have disj: "Pair c ` {i. i < length items \<and> P c i} \<inter> unchecked_pairs l P = {}"
    using notin by (force simp: unchecked_pairs_def)
  have "card (unchecked_pairs (e # l) P) =
      card (Pair c ` {i. i < length items \<and> P c i}) + card (unchecked_pairs l P)"
    unfolding e unchecked_pairs_Cons
    by (rule card_Un_disjoint) (simp_all add: finite_unchecked_pairs disj)
  also have "card (Pair c ` {i. i < length items \<and> P c i}) = card {i. i < length items \<and> P c i}"
    by (rule card_image) (simp add: inj_on_def)
  finally show ?case
    by (simp add: e Cons.IH [OF dist])
qed

lemma nths_mono_subseq: "I \<subseteq> J \<Longrightarrow> subseq (nths xs I) (nths xs J)"
proof (induction xs arbitrary: I J)
  case Nil
  then show ?case by simp
next
  case (Cons x xs)
  from Cons.prems have "{j. Suc j \<in> I} \<subseteq> {j. Suc j \<in> J}" by auto
  then have "subseq (nths xs {j. Suc j \<in> I}) (nths xs {j. Suc j \<in> J})"
    by (rule Cons.IH)
  with Cons.prems show ?case
    by (auto simp: nths_Cons)
qed


lemma not_truthy_iff: "\<not> truthy v \<longleftrightarrow> v = None \<or> v = Some False"
  by (cases v) (auto simp: truthy_def)

lemma countRemainingItems_nonneg: "0 \<le> countRemainingItems remaining"
  unfolding countRemainingItems_sum by (rule sum_list_nonneg) auto

lemma count_remaining_card:
  assumes "wf_object shoppingList"
  shows "countRemainingItems (getRemainingItemsByCategory (Some shoppingList) checkedItems) =
     int (card (unchecked_pairs shoppingList
       (\<lambda>category i. \<not> truthy (checkedItems (checked_key category i)))))"
proof -
  let ?P = "\<lambda>category i. \<not> truthy (checkedItems (checked_key category i))"
  from assms have dist: "distinct (map fst shoppingList)"
    by (simp add: wf_object_def)
  have "(\<Sum>(category, items)\<leftarrow>shoppingList. int (length (nths items {i. ?P category i})))
      = int (\<Sum>(category, items)\<leftarrow>shoppingList. card {i. i < length items \<and> ?P category i})"
    by (simp add: length_nths sum_list_of_nat [symmetric] comp_def case_prod_unfold)
  then show ?thesis
    by (simp only: count_remaining_sum [OF assms] card_unchecked_pairs [OF dist])
qed

lemma count_example:
  "countRemainingItems (getRemainingItemsByCategory (Some example_list) example_checked) = 2"
  by (simp add: remaining_example countRemainingItems_def object_values_def)

lemma remaining_entry_subseq:
  assumes wf: "wf_object l"
    and le: "\<forall>k. truthy (ch1 k) \<longrightarrow> truthy (ch2 k)"
    and mem: "(category, items2) \<in> set (getRemainingItemsByCategory (Some l) ch2)"
  shows "\<exists>items1. (category, items1) \<in> set (getRemainingItemsByCategory (Some l) ch1)
           \<and> subseq items2 items1"
proof -
  let ?I = "\<lambda>ch. {i. \<not> truthy (ch (checked_key category i))}"
  from mem obtain items where items: "(category, items) \<in> set l"
    and items2: "items2 = nths items (?I ch2)" and ne: "items2 \<noteq> []"
    unfolding remaining_of_wf_object [OF wf] by auto
  from le have "?I ch2 \<subseteq> ?I ch1" by auto
  then have sub: "subseq items2 (nths items (?I ch1))"
    unfolding items2 by (rule nths_mono_subseq)
  with ne have "nths items (?I ch1) \<noteq> []" by auto
  with items have "(category, nths items (?I ch1)) \<in> set (getRemainingItemsByCategory (Some l) ch1)"
    unfolding remaining_of_wf_object [OF wf] by force
  with sub show ?thesis by blast
qed

lemma count_remaining_mono:
  assumes wf: "wf_object l"
    and le: "\<forall>k. truthy (ch1 k) \<longrightarrow> truthy (ch2 k)"
  shows "countRemainingItems (getRemainingItemsByCategory (Some l) ch2)
       \<le> countRemainingItems (getRemainingItemsByCategory (Some l) ch1)"
  unfolding count_remaining_sum [OF wf]
proof (rule sum_list_mono)
  fix e assume "e \<in> set l"
  obtain category items where e: "e = (category, items)" by (cases e)
  from le have "{i. \<not> truthy (ch2 (checked_key category i))}
      \<subseteq> {i. \<not> truthy (ch1 (checked_key category i))}" by auto
  then have "subseq (nths items {i. \<not> truthy (ch2 (checked_key category i))})
      (nths items {i. \<not> truthy (ch1 (checked_key category i))})"
    by (rule nths_mono_subseq)
  then have "length (nths items {i. \<not> truthy (ch2 (checked_key category i))})
      \<le> length (nths items {i. \<not> truthy (ch1 (checked_key category i))})"
    by (rule list_emb_length)
  then show "(case e of (category, items) \<Rightarrow>
        int (length (nths items {i. \<not> truthy (ch2 (checked_key category i))})))
      \<le> (case e of (category, items) \<Rightarrow>
        int (length (nths items {i. \<not> truthy (ch1 (checked_key category i))})))"
    by (simp add: e)
qed

lemma remaining_example_unchecked:
  "getRemainingItemsByCategory (Some example_list) Map.empty = example_list"
  by (simp add: example_list_def remaining_defs object_defs lit_def)

text \<open>
  C5. For every shopping list (null or an object) and every checked map,
  \<open>countRemainingItems\<close> of \<open>getRemainingItemsByCategory\<close> is the number of pairs of a
  category and an item position whose key is absent from the checked map or mapped to
  \<open>false\<close>. The count of the object without properties is \<open>0\<close>, and no count is negative.
\<close>

theorem countRemainingItems_counts_unchecked_pairs:
  assumes "wf_shopping_list shoppingList"
  shows "countRemainingItems (getRemainingItemsByCategory shoppingList checkedItems) =
      int (card {(category, i). \<exists>l items. shoppingList = Some l \<and> (category, items) \<in> set l
                   \<and> i < length items
                   \<and> (checkedItems (checked_key category i) = None
                      \<or> checkedItems (checked_key category i) = Some False)})
    \<and> countRemainingItems [] = 0
    \<and> 0 \<le> countRemainingItems remaining"
proof (cases shoppingList)
  case None
  then show ?thesis
    by (simp add: getRemainingItemsByCategory_def countRemainingItems_nonneg)
      (simp add: countRemainingItems_def object_values_def)
next
  case (Some l)
  with assms have "wf_object l" by (simp add: wf_shopping_list_def)
  then show ?thesis
    by (simp add: Some count_remaining_card unchecked_pairs_def not_truthy_iff
        countRemainingItems_nonneg)
      (simp add: countRemainingItems_def object_values_def)
qed

theorem countRemainingItems_counts_unchecked_pairs_witness:
  "wf_shopping_list (Some example_list) \<and>
   countRemainingItems (getRemainingItemsByCategory (Some example_list) example_checked) = 2 \<and>
   int (card {(category, i). \<exists>l items. Some example_list = Some l \<and> (category, items) \<in> set l
                   \<and> i < length items
                   \<and> (example_checked (checked_key category i) = None
                      \<or> example_checked (checked_key category i) = Some False)}) = 2"
proof -
  have wf: "wf_shopping_list (Some example_list)"
    by (simp add: wf_shopping_list_def wf_example_list)
  from countRemainingItems_counts_unchecked_pairs [OF wf, of example_checked] count_example wf
  show ?thesis by simp
qed


text \<open>
  C10. Checking more items never increases what remains: when every key that is truthy in
  the first map is truthy in the second, the remaining count under the second map is at
  most the count under the first, and every category remaining under the second map
  remains under the first with a sequence that has the second one as a subsequence.
\<close>

theorem checking_more_never_increases_remaining:
  assumes "wf_shopping_list shoppingList"
    and "\<forall>k. truthy (firstMap k) \<longrightarrow> truthy (secondMap k)"
  shows "countRemainingItems (getRemainingItemsByCategory shoppingList secondMap)
       \<le> countRemainingItems (getRemainingItemsByCategory shoppingList firstMap)
    \<and> (\<forall>(category, items2) \<in> set (getRemainingItemsByCategory shoppingList secondMap).
         \<exists>items1. (category, items1) \<in> set (getRemainingItemsByCategory shoppingList firstMap)
           \<and> subseq items2 items1)"
proof (cases shoppingList)
  case None
  then show ?thesis by (simp add: getRemainingItemsByCategory_def)
next
  case (Some l)
  with assms(1) have wf: "wf_object l" by (simp add: wf_shopping_list_def)
  show ?thesis
    unfolding Some
    using count_remaining_mono [OF wf assms(2)] remaining_entry_subseq [OF wf assms(2)]
    by blast
qed

theorem checking_more_never_increases_remaining_witness:
  "wf_shopping_list (Some example_list) \<and>
   {k. truthy (Map.empty k)} \<subseteq> {k. truthy (example_checked k)} \<and>
   countRemainingItems (getRemainingItemsByCategory (Some example_list) example_checked)
       \<le> countRemainingItems (getRemainingItemsByCategory (Some example_list) Map.empty) \<and>
   (\<exists>items1. (lit ''Warzywa'', items1)
         \<in> set (getRemainingItemsByCategory (Some example_list) Map.empty)
       \<and> subseq [shopping_item (lit ''Cebula'') (lit ''2 szt'')] items1) \<and>
   countRemainingItems (getRemainingItemsByCategory (Some example_list) example_checked) = 2 \<and>
   countRemainingItems (getRemainingItemsByCategory (Some example_list) Map.empty) = 3"
proof -
  have wf: "wf_shopping_list (Some example_list)"
    by (simp add: wf_shopping_list_def wf_example_list)
  have le: "\<forall>k. truthy (Map.empty k) \<longrightarrow> truthy (example_checked k)"
    by (simp add: truthy_def)
  have c3: "countRemainingItems (getRemainingItemsByCategory (Some example_list) Map.empty) = 3"
    by (simp add: remaining_example_unchecked)
      (simp add: example_list_def countRemainingItems_def object_values_def)
  have mem: "(lit ''Warzywa'', [shopping_item (lit ''Cebula'') (lit ''2 szt'')])
      \<in> set (getRemainingItemsByCategory (Some example_list) example_checked)"
    by (simp add: remaining_example)
  from checking_more_never_increases_remaining [OF wf le] wf le count_example c3 mem
  show ?thesis by blast
qed

lemma foldl_add_length_Suc:
  "foldl (\<lambda>sum items. sum + int (length items) + 1) a xs
     = a + (\<Sum>x\<leftarrow>xs. int (length x) + 1)"
  by (induction xs arbitrary: a) simp_all

lemma total_lines_sum:
  "total_lines remaining = (\<Sum>(category, items)\<leftarrow>remaining. int (length items) + 1)"
  by (simp add: total_lines_def object_values_def foldl_add_length_Suc comp_def case_prod_unfold)

lemma columns_layout:
  "columns (getPrintLayoutConfig remaining) = (if total_lines remaining > 40 then 3 else 2)"
  by (simp add: getPrintLayoutConfig_def Let_def)

lemma fontSize_layout:
  "fontSize (getPrintLayoutConfig remaining) =
     (if total_lines remaining > 60 then 9 else if total_lines remaining > 45 then 10
      else if total_lines remaining > 30 then 11 else 12)"
  by (simp add: getPrintLayoutConfig_def Let_def)

lemma total_lines_one_category: "total_lines (one_category n) = int n + 1"
  by (simp add: one_category_def total_lines_def object_values_def)

text \<open>
  C3. \<open>getPrintLayoutConfig\<close> computes the total number of lines as the sum over the
  categories of the number of items plus one. It returns three columns exactly when the
  total exceeds 40 and two otherwise, and the font size 9 above 60 lines, else 10 above
  45, else 11 above 30, else 12; so 46 lines give 10, 31 give 11, 30 give 12 and 61 give 9.
\<close>

theorem getPrintLayoutConfig_thresholds:
  "total_lines remaining = (\<Sum>(category, items)\<leftarrow>remaining. int (length items) + 1)
   \<and> (columns (getPrintLayoutConfig remaining) = 3 \<longleftrightarrow> total_lines remaining > 40)
   \<and> (columns (getPrintLayoutConfig remaining) = 2 \<longleftrightarrow> \<not> total_lines remaining > 40)
   \<and> fontSize (getPrintLayoutConfig remaining) =
        (if total_lines remaining > 60 then 9 else if total_lines remaining > 45 then 10
         else if total_lines remaining > 30 then 11 else 12)
   \<and> (total_lines remaining = 46 \<longrightarrow> fontSize (getPrintLayoutConfig remaining) = 10)
   \<and> (total_lines remaining = 31 \<longrightarrow> fontSize (getPrintLayoutConfig remaining) = 11)
   \<and> (total_lines remaining = 30 \<longrightarrow> fontSize (getPrintLayoutConfig remaining) = 12)
   \<and> (total_lines remaining = 61 \<longrightarrow> fontSize (getPrintLayoutConfig remaining) = 9)"
  using total_lines_sum [of remaining]
  by (simp add: columns_layout fontSize_layout)

theorem getPrintLayoutConfig_thresholds_witness:
  "total_lines (one_category 45) = 46 \<and> fontSize (getPrintLayoutConfig (one_category 45)) = 10
   \<and> total_lines (one_category 30) = 31 \<and> fontSize (getPrintLayoutConfig (one_category 30)) = 11
   \<and> total_lines (one_category 29) = 30 \<and> fontSize (getPrintLayoutConfig (one_category 29)) = 12
   \<and> total_lines (one_category 60) = 61 \<and> fontSize (getPrintLayoutConfig (one_category 60)) = 9
   \<and> total_lines (one_category 50) = 51 \<and> columns (getPrintLayoutConfig (one_category 50)) = 3
   \<and> fontSize (getPrintLayoutConfig (one_category 50)) = 10
   \<and> columns (getPrintLayoutConfig (one_category 29)) = 2"
  using getPrintLayoutConfig_thresholds [of "one_category 45"]
    getPrintLayoutConfig_thresholds [of "one_category 30"]
    getPrintLayoutConfig_thresholds [of "one_category 29"]
    getPrintLayoutConfig_thresholds [of "one_category 60"]
    getPrintLayoutConfig_thresholds [of "one_category 50"]
  by (simp add: total_lines_one_category)


lemma push_items_append: "push_items lines items = lines @ map item_line items"
  unfolding push_items_def by (induction items arbitrary: lines) simp_all

lemma foldl_push_category:
  "foldl push_category lines es =
     lines @ concat (map (\<lambda>(category, items). [[], category] @ map item_line items) es)"
  by (induction es arbitrary: lines) (auto simp: push_category_def push_items_append)

lemma share_lines_eq:
  "share_lines remaining =
     share_header # concat (map (\<lambda>(category, items). [[], category] @ map item_line items) remaining)"
  by (simp add: share_lines_def object_entries_def foldl_push_category)

lemma item_line_eq:
  "item_line item =
     lit ''- '' @ name item @ (if amount item = [] then [] else lit '' ('' @ amount item @ lit '')'')"
  by (simp add: item_line_def)

lemma item_line_fun:
  "item_line =
     (\<lambda>item. lit ''- '' @ name item @
        (if amount item = [] then [] else lit '' ('' @ amount item @ lit '')''))"
  by (rule ext) (rule item_line_eq)

lemma array_join_Cons:
  "array_join sep (x # xs) = x @ concat (map (\<lambda>y. sep @ y) xs)"
  by (induction xs arbitrary: x) simp_all

lemma trim_keeps_prefix:
  assumes "h \<noteq> []" "\<not> is_white_space (hd h)" "\<not> is_white_space (last h)"
  shows "\<exists>t'. trim (h @ t) = h @ t'"
proof -
  from assms have a: "dropWhile is_white_space (h @ t) = h @ t"
    by (cases h) simp_all
  from assms have b: "dropWhile is_white_space (rev h) = rev h"
    by (cases h rule: rev_cases) simp_all
  have "\<exists>u. dropWhile is_white_space (rev t @ rev h) = u @ rev h"
    by (cases "\<forall>c \<in> set (rev t). is_white_space c")
      (auto simp: dropWhile_append b dropWhile_append1)
  then obtain u where "dropWhile is_white_space (rev t @ rev h) = u @ rev h" ..
  then have "trim (h @ t) = h @ rev u"
    by (simp add: trim_def a)
  then show ?thesis ..
qed

lemma trim_no_white_space:
  assumes "s \<noteq> []" "\<not> is_white_space (hd s)" "\<not> is_white_space (last s)"
  shows "trim s = s"
proof -
  from assms have a: "dropWhile is_white_space s = s"
    by (cases s) simp_all
  from assms have b: "dropWhile is_white_space (rev s) = rev s"
    by (cases s rule: rev_cases) simp_all
  show ?thesis by (simp add: trim_def a b)
qed

lemma trim_ends:
  assumes "trim s \<noteq> []"
  shows "\<not> is_white_space (hd (trim s)) \<and> \<not> is_white_space (last (trim s))"
proof -
  let ?a = "dropWhile is_white_space s"
  let ?b = "dropWhile is_white_space (rev ?a)"
  from assms have b: "?b \<noteq> []" by (simp add: trim_def)
  have a: "?a \<noteq> []"
  proof
    assume "?a = []"
    then have "?b = []" by (simp only: rev.simps dropWhile.simps)
    with b show False ..
  qed
  from b have "\<not> is_white_space (hd ?b)" by (rule hd_dropWhile)
  then have l: "\<not> is_white_space (last (trim s))"
    using b by (simp add: trim_def last_rev)
  have "rev ?a = takeWhile is_white_space (rev ?a) @ ?b" by simp
  then have "last (rev ?a) = last ?b" using b by (metis last_appendR)
  moreover have "last (rev ?a) = hd ?a" using a by (simp add: last_rev)
  moreover from a have "\<not> is_white_space (hd ?a)" by (rule hd_dropWhile)
  ultimately have "\<not> is_white_space (last ?b)" by simp
  then have "\<not> is_white_space (hd (trim s))"
    using b by (simp add: trim_def hd_rev)
  with l show ?thesis by simp
qed

lemma share_header_ends:
  "share_header \<noteq> []" "\<not> is_white_space (hd share_header)" "\<not> is_white_space (last share_header)"
  by (simp_all add: share_header_def lit_def is_white_space_def)


lemmas share_defs = buildShareText_def share_lines_def push_category_def push_items_def
  item_line_def share_header_def trim_def is_white_space_def object_entries_def

lemma buildShareText_lines:
  "buildShareText remaining =
     trim (array_join [0xA]
       (share_header #
          concat (map (\<lambda>(category, items). [[], category] @ map item_line items) remaining)))"
  by (simp add: buildShareText_def share_lines_eq)

lemma buildShareText_prefix: "prefix share_header (buildShareText remaining)"
proof -
  obtain t' where "trim (share_header @ concat (map (\<lambda>y. [0xA] @ y)
      (concat (map (\<lambda>(category, items). [[], category] @ map item_line items) remaining))))
      = share_header @ t'"
    using trim_keeps_prefix [OF share_header_ends] by blast
  then show ?thesis
    by (simp add: buildShareText_lines array_join_Cons del: append.simps)
qed

lemma buildShareText_nonempty: "buildShareText remaining \<noteq> []"
  using buildShareText_prefix [of remaining] share_header_ends(1)
  by (auto simp: prefix_def)

lemma buildShareText_empty: "buildShareText [] = share_header"
  by (simp add: buildShareText_lines trim_no_white_space [OF share_header_ends])

text \<open>
  C4, as stated, fails: \<open>buildShareText\<close> tests the amount for truthiness and never trims
  it. An amount of one space is empty after trimming, yet its line carries the suffix
  with the space between the parentheses.
\<close>

theorem share_line_suffix_untrimmed_counterexample:
  "trim (amount salt_item) = []
   \<and> item_line salt_item = lit ''- Sol ( )''
   \<and> buildShareText [(lit ''Inne'', [salt_item])]
       = share_header @ [0xA, 0xA] @ lit ''Inne'' @ [0xA] @ lit ''- Sol ( )''"
  by (simp add: salt_item_def shopping_item_def share_defs lit_def)

text \<open>
  C4, amended. The line pushed for an item is \<open>"- "\<close> followed by the name, with the
  amount in parentheses after a space appended exactly when the amount is not the empty
  string; only the empty amount gives no suffix and no parentheses. The lines are the
  header, then per category an empty line, the category name and the item lines.
\<close>

theorem share_lines_item_format:
  "share_lines remaining =
     share_header #
       concat (map (\<lambda>(category, items).
                      [[], category] @
                      map (\<lambda>item. lit ''- '' @ name item @
                             (if amount item = [] then []
                              else lit '' ('' @ amount item @ lit '')'')) items)
                 remaining)
   \<and> buildShareText remaining = trim (array_join [0xA] (share_lines remaining))"
  unfolding share_lines_eq buildShareText_def item_line_fun by simp

theorem share_lines_item_format_witness:
  "share_lines example_list =
     [share_header, [], lit ''Warzywa'', lit ''- Cebula (2 szt)'', lit ''- Marchew'',
      [], lit ''Nabial'', lit ''- Mleko (1 l)'']"
  using share_lines_item_format [of example_list]
  by (simp add: example_list_def shopping_item_def lit_def)

text \<open>
  C9. The output of \<open>buildShareText\<close> is the header line, then for each category an empty
  line, the bare category name and its item lines, joined by line feeds and trimmed at
  both ends. It begins with the header, neither its first nor its last code unit is
  white space, and for the object without properties it is the header alone.
\<close>

theorem buildShareText_layout:
  "buildShareText remaining =
     trim (array_join [0xA]
       (share_header #
          concat (map (\<lambda>(category, items). [[], category] @ map item_line items) remaining)))
   \<and> prefix share_header (buildShareText remaining)
   \<and> \<not> is_white_space (hd (buildShareText remaining))
   \<and> \<not> is_white_space (last (buildShareText remaining))
   \<and> buildShareText [] = share_header"
  using buildShareText_lines [of remaining] buildShareText_prefix [of remaining]
    trim_ends [of "array_join [0xA] (share_lines remaining)"]
    buildShareText_nonempty [of remaining] buildShareText_empty
  by (simp add: buildShareText_def)

theorem buildShareText_layout_witness:
  "buildShareText example_remaining =
     share_header @ [0xA, 0xA] @ lit ''Warzywa'' @ [0xA] @ lit ''- Cebula (2 szt)''
       @ [0xA, 0xA] @ lit ''Nabial'' @ [0xA] @ lit ''- Mleko (1 l)''
   \<and> prefix share_header (buildShareText example_remaining)"
  using buildShareText_layout [of example_remaining]
  by (simp add: example_remaining_def shopping_item_def item_line_def share_header_def
      trim_def is_white_space_def lit_def)


section \<open>Properties of planner-utils\<close>

lemmas planner_defs = getNextAvailableDay_def index_of_def scan_days.simps Let_def

lemma next_day_wraps: "getNextAvailableDay [lit ''Sun''] week7 (lit ''Sun'') = Some (lit ''Mon'')"
  by (simp add: planner_defs week7_def lit_def)

lemma next_day_after_Mon: "getNextAvailableDay [lit ''Mon''] week7 (lit ''Mon'') = Some (lit ''Tue'')"
  by (simp add: planner_defs week7_def lit_def)

lemma next_day_after_Fri: "getNextAvailableDay [lit ''Fri'', lit ''Sun''] week7 (lit ''Fri'') = Some (lit ''Sat'')"
  by (simp add: planner_defs week7_def lit_def)

lemma next_day_all_assigned: "getNextAvailableDay [lit ''Mon'', lit ''Tue'', lit ''Wed''] [lit ''Mon'', lit ''Tue'', lit ''Wed''] (lit ''Mon'') = None"
  by (simp add: planner_defs week7_def lit_def)

lemma next_day_repeated_name: "getNextAvailableDay [lit ''Mon''] [lit ''Mon'', lit ''Mon''] (lit ''Mon'') = None"
  by (simp add: planner_defs week7_def lit_def)

lemma index_of_from_notin: "x \<notin> set xs \<Longrightarrow> index_of_from k xs x = -1"
  by (induction xs arbitrary: k) auto

lemma index_of_from_first:
  "i < length xs \<Longrightarrow> xs ! i = x \<Longrightarrow> \<forall>j<i. xs ! j \<noteq> x \<Longrightarrow> index_of_from k xs x = k + int i"
proof (induction xs arbitrary: k i)
  case Nil
  then show ?case by simp
next
  case (Cons y ys)
  show ?case
  proof (cases i)
    case 0
    with Cons.prems show ?thesis by simp
  next
    case (Suc i')
    from Cons.prems Suc have "y \<noteq> x" by auto
    moreover from Cons.prems Suc have "index_of_from (k + 1) ys x = k + 1 + int i'"
      by (intro Cons.IH) auto
    ultimately show ?thesis by (simp add: Suc)
  qed
qed

lemma index_of_from_in:
  "x \<in> set xs \<Longrightarrow> \<exists>i<length xs. index_of_from k xs x = k + int i \<and> xs ! i = x"
proof (induction xs arbitrary: k)
  case Nil
  then show ?case by simp
next
  case (Cons y ys)
  show ?case
  proof (cases "y = x")
    case True
    then show ?thesis by (intro exI[of _ 0]) simp
  next
    case False
    with Cons.prems have "x \<in> set ys" by simp
    then obtain i where "i < length ys" "index_of_from (k + 1) ys x = k + 1 + int i" "ys ! i = x"
      using Cons.IH by blast
    with False show ?thesis by (intro exI[of _ "Suc i"]) simp
  qed
qed

lemma index_of_minus_one: "index_of xs x = -1 \<longleftrightarrow> x \<notin> set xs"
proof
  assume "index_of xs x = -1"
  show "x \<notin> set xs"
  proof
    assume "x \<in> set xs"
    then obtain i where "index_of_from 0 xs x = 0 + int i"
      using index_of_from_in [of x xs 0] by auto
    with \<open>index_of xs x = -1\<close> show False by (simp add: index_of_def)
  qed
next
  assume "x \<notin> set xs"
  then show "index_of xs x = -1" by (simp add: index_of_def index_of_from_notin)
qed

lemma index_of_distinct:
  "distinct xs \<Longrightarrow> i < length xs \<Longrightarrow> index_of xs (xs ! i) = int i"
  unfolding index_of_def
  using index_of_from_first [of i xs "xs ! i" 0]
  by (simp add: nth_eq_iff_index_eq)


lemma scan_days_find:
  "scan_days A w s off =
     List.find (\<lambda>d. d \<notin> A)
       (map (\<lambda>offset. w ! nat ((s + offset) mod int (length w))) [off..int (length w)])"
proof (induction A w s off rule: scan_days.induct)
  case (1 A w s off)
  show ?case
  proof (cases "off \<le> int (length w)")
    case True
    then have up: "[off..int (length w)] = off # [off + 1..int (length w)]"
      by (rule upto_rec1)
    show ?thesis
      using 1 True by (subst scan_days.simps) (simp add: up Let_def)
  next
    case False
    then show ?thesis by (subst scan_days.simps) simp
  qed
qed

lemma map_int_upt: "map int [a..<b] = [int a..int b - 1]"
proof (induction b)
  case 0
  then show ?case by simp
next
  case (Suc b)
  show ?case
  proof (cases "a \<le> b")
    case True
    then have "[int a..int b] = [int a..int b - 1] @ [int b]"
      by (intro upto_rec2) simp
    with True Suc show ?thesis by simp
  next
    case False
    then show ?thesis by simp
  qed
qed

lemma scan_days_circular_scan:
  "scan_days A w (int i) 1 = List.find (\<lambda>d. d \<notin> A) (circular_scan w i)"
proof -
  have "[1..int (length w)] = map int [1..<Suc (length w)]"
    using map_int_upt [of 1 "Suc (length w)"] by simp
  then have "map (\<lambda>offset. w ! nat ((int i + offset) mod int (length w))) [1..int (length w)]
      = circular_scan w i"
    by (simp add: circular_scan_def comp_def nat_mod_distrib nat_add_distrib)
  then show ?thesis by (simp add: scan_days_find)
qed

lemma circular_scan_covers:
  assumes "i < length w"
  shows "set (circular_scan w i) = set w"
proof
  show "set (circular_scan w i) \<subseteq> set w"
  proof
    fix d assume "d \<in> set (circular_scan w i)"
    then obtain off where "d = w ! ((i + off) mod length w)"
      by (auto simp: circular_scan_def)
    moreover from assms have "0 < length w" by (cases w) simp_all
    then have "(i + off) mod length w < length w" by (rule mod_less_divisor)
    ultimately show "d \<in> set w" by simp
  qed
next
  show "set w \<subseteq> set (circular_scan w i)"
  proof
    fix d assume "d \<in> set w"
    then obtain j where j: "j < length w" "w ! j = d"
      by (auto simp: in_set_conv_nth)
    define off where "off = (if i < j then j - i else length w + j - i)"
    from assms j have off: "1 \<le> off" "off < Suc (length w)" "(i + off) mod length w = j"
      by (auto simp: off_def)
    then have mem: "off \<in> set [1..<Suc (length w)]"
      by (simp del: upt_Suc)
    have "(\<lambda>offset. w ! ((i + offset) mod length w)) off \<in> set (circular_scan w i)"
      unfolding circular_scan_def set_map using mem by (rule imageI)
    with off(3) j(2) show "d \<in> set (circular_scan w i)" by simp
  qed
qed

lemma unassigned_day_exists:
  assumes "distinct w" "card (set a) < length w"
  shows "\<exists>d \<in> set w. d \<notin> set a"
proof (rule ccontr)
  assume "\<not> (\<exists>d \<in> set w. d \<notin> set a)"
  then have "set w \<subseteq> set a" by auto
  then have "card (set w) \<le> card (set a)" by (intro card_mono) simp_all
  with assms show False by (simp add: distinct_card)
qed

lemma scan_days_finds:
  assumes "distinct w" "card (set a) < length w" "i < length w"
  shows "\<exists>d. scan_days (set a) w (int i) 1 = Some d \<and> d \<in> set w \<and> d \<notin> set a"
proof -
  from unassigned_day_exists [OF assms(1,2)] circular_scan_covers [OF assms(3)]
  have "\<exists>d. d \<in> set (circular_scan w i) \<and> d \<notin> set a" by auto
  then have "List.find (\<lambda>d. d \<notin> set a) (circular_scan w i) \<noteq> None"
    by (simp add: find_None_iff)
  then obtain d where d: "List.find (\<lambda>d. d \<notin> set a) (circular_scan w i) = Some d" by auto
  then have "d \<in> set (circular_scan w i)" "d \<notin> set a"
    by (auto simp: find_Some_iff)
  with d circular_scan_covers [OF assms(3)] show ?thesis
    by (auto simp: scan_days_circular_scan)
qed


lemma next_day_guards_pass:
  assumes "weekDays \<noteq> []" "card (set assignedDays) < length weekDays"
    "currentDay \<in> set weekDays"
  shows "getNextAvailableDay assignedDays weekDays currentDay =
     scan_days (set assignedDays) weekDays (index_of weekDays currentDay) 1"
proof -
  from assms(3) have "index_of weekDays currentDay \<noteq> -1"
    by (simp add: index_of_minus_one)
  with assms(1,2) show ?thesis
    by (simp add: getNextAvailableDay_def Let_def split: option.split)
qed

lemma next_day_guard_null:
  assumes "weekDays = [] \<or> card (set assignedDays) \<ge> length weekDays
    \<or> currentDay \<notin> set weekDays"
  shows "getNextAvailableDay assignedDays weekDays currentDay = None"
  using assms index_of_minus_one [of weekDays currentDay]
  by (auto simp: getNextAvailableDay_def Let_def)

lemma next_day_found:
  assumes "distinct weekDays" "weekDays \<noteq> []" "card (set assignedDays) < length weekDays"
    "currentDay \<in> set weekDays"
  shows "\<exists>d. scan_days (set assignedDays) weekDays (index_of weekDays currentDay) 1 = Some d
    \<and> d \<in> set weekDays \<and> d \<notin> set assignedDays"
proof -
  from assms(4) obtain i where i: "i < length weekDays" "weekDays ! i = currentDay"
    by (auto simp: in_set_conv_nth)
  with assms(1) have "index_of weekDays currentDay = int i"
    using index_of_distinct by blast
  with scan_days_finds [OF assms(1,3) i(1)] show ?thesis by simp
qed

lemma week7_facts: "distinct week7" "length week7 = 7" "week7 ! 6 = lit ''Sun''"
  by (simp_all add: week7_def lit_def)

lemma index_of_week7_Fri: "index_of week7 (lit ''Fri'') = 4"
  by (simp add: index_of_def week7_def lit_def)

text \<open>
  C2. When \<open>weekDays\<close> holds distinct names, \<open>currentDay\<close> is at index \<open>i\<close> of it and
  fewer distinct names are assigned than \<open>weekDays\<close> has entries, \<open>getNextAvailableDay\<close>
  returns the first day of the circular scan from the position after \<open>i\<close> that is not
  assigned, and there is such a day. With only Sunday assigned and Sunday as the current
  day of the Monday-first week, the result is Monday.
\<close>

theorem getNextAvailableDay_circular_scan:
  assumes "distinct weekDays" "i < length weekDays" "weekDays ! i = currentDay"
    "card (set assignedDays) < length weekDays"
  shows "getNextAvailableDay assignedDays weekDays currentDay =
       List.find (\<lambda>d. d \<notin> set assignedDays) (circular_scan weekDays i)
     \<and> (\<exists>d. getNextAvailableDay assignedDays weekDays currentDay = Some d
            \<and> d \<in> set weekDays \<and> d \<notin> set assignedDays)
     \<and> getNextAvailableDay [lit ''Sun''] week7 (lit ''Sun'') = Some (lit ''Mon'')"
proof -
  from assms(2,3) have ne: "weekDays \<noteq> []" and cur: "currentDay \<in> set weekDays"
    by auto
  from assms(1,2,3) have idx: "index_of weekDays currentDay = int i"
    using index_of_distinct by blast
  have eq: "getNextAvailableDay assignedDays weekDays currentDay =
      scan_days (set assignedDays) weekDays (int i) 1"
    using next_day_guards_pass [OF ne assms(4) cur] idx by simp
  from scan_days_finds [OF assms(1,4,2)] eq next_day_wraps show ?thesis
    by (simp add: scan_days_circular_scan)
qed

theorem getNextAvailableDay_circular_scan_witness:
  "distinct week7 \<and> 6 < length week7 \<and> week7 ! 6 = lit ''Sun''
   \<and> card (set [lit ''Sun'']) < length week7
   \<and> getNextAvailableDay [lit ''Sun''] week7 (lit ''Sun'') =
       List.find (\<lambda>d. d \<notin> set [lit ''Sun'']) (circular_scan week7 6)
   \<and> getNextAvailableDay [lit ''Sun''] week7 (lit ''Sun'') = Some (lit ''Mon'')"
proof -
  have h2: "6 < length week7" and h4: "card (set [lit ''Sun'']) < length week7"
    by (simp_all add: week7_facts)
  from getNextAvailableDay_circular_scan [OF week7_facts(1) h2 week7_facts(3) h4]
    week7_facts(1,3) h2 h4
  show ?thesis by blast
qed

text \<open>
  C6, as stated, fails for a \<open>weekDays\<close> list with a repeated name: none of the three
  guards holds, the scan meets only assigned days and the function returns \<open>null\<close>
  from the statement after the loop.
\<close>

theorem getNextAvailableDay_null_counterexample:
  "[lit ''Mon'', lit ''Mon''] \<noteq> []
   \<and> card (set [lit ''Mon'']) < length [lit ''Mon'', lit ''Mon'']
   \<and> lit ''Mon'' \<in> set [lit ''Mon'', lit ''Mon'']
   \<and> getNextAvailableDay [lit ''Mon''] [lit ''Mon'', lit ''Mon''] (lit ''Mon'') = None"
  using next_day_repeated_name by simp

text \<open>
  C6, amended. For every input each of the three guards makes \<open>getNextAvailableDay\<close>
  return \<open>null\<close>: \<open>weekDays\<close> is empty, the number of distinct assigned names is at least
  the length of \<open>weekDays\<close> (whether or not the names occur in \<open>weekDays\<close>), or
  \<open>currentDay\<close> does not occur in \<open>weekDays\<close>. When \<open>weekDays\<close> holds distinct names,
  these are the only cases in which the result is \<open>null\<close>.
\<close>

theorem getNextAvailableDay_null_guards:
  "(weekDays = [] \<or> card (set assignedDays) \<ge> length weekDays
      \<or> currentDay \<notin> set weekDays
     \<longrightarrow> getNextAvailableDay assignedDays weekDays currentDay = None)
   \<and> (distinct weekDays \<longrightarrow>
        (getNextAvailableDay assignedDays weekDays currentDay = None
         \<longleftrightarrow> weekDays = [] \<or> card (set assignedDays) \<ge> length weekDays
              \<or> currentDay \<notin> set weekDays))"
proof (intro conjI impI iffI)
  assume "weekDays = [] \<or> card (set assignedDays) \<ge> length weekDays
      \<or> currentDay \<notin> set weekDays"
  then show "getNextAvailableDay assignedDays weekDays currentDay = None"
    by (rule next_day_guard_null)
next
  assume "distinct weekDays" "weekDays = [] \<or> card (set assignedDays) \<ge> length weekDays
      \<or> currentDay \<notin> set weekDays"
  then show "getNextAvailableDay assignedDays weekDays currentDay = None"
    by (intro next_day_guard_null)
next
  assume d: "distinct weekDays"
    and n: "getNextAvailableDay assignedDays weekDays currentDay = None"
  show "weekDays = [] \<or> card (set assignedDays) \<ge> length weekDays
      \<or> currentDay \<notin> set weekDays"
  proof (rule ccontr)
    assume "\<not> ?thesis"
    then have g: "weekDays \<noteq> []" "card (set assignedDays) < length weekDays"
      "currentDay \<in> set weekDays" by auto
    from next_day_found [OF d g] next_day_guards_pass [OF g] n show False by auto
  qed
qed

theorem getNextAvailableDay_null_guards_witness:
  "distinct week7
   \<and> getNextAvailableDay [lit ''Mon''] week7 (lit ''Mon'') \<noteq> None
   \<and> \<not> (week7 = [] \<or> card (set [lit ''Mon'']) \<ge> length week7 \<or> lit ''Mon'' \<notin> set week7)
   \<and> lit ''NotADay'' \<notin> set week7
   \<and> getNextAvailableDay [lit ''Mon''] week7 (lit ''NotADay'') = None
   \<and> getNextAvailableDay [lit ''Mon''] [] (lit ''Mon'') = None"
proof -
  have a: "lit ''NotADay'' \<notin> set week7" by (simp add: week7_def lit_def)
  from getNextAvailableDay_null_guards [of week7 "[lit ''Mon'']" "lit ''Mon''"]
    getNextAvailableDay_null_guards [of week7 "[lit ''Mon'']" "lit ''NotADay''"]
    getNextAvailableDay_null_guards [of "[]" "[lit ''Mon'']" "lit ''Mon''"]
    week7_facts(1) next_day_after_Mon a
  show ?thesis by simp
qed

text \<open>
  C7. When \<open>weekDays\<close> holds distinct names and the three guards pass, the loop finds an
  unassigned day within one rotation and \<open>getNextAvailableDay\<close> returns it; the
  \<open>return null\<close> after the loop is not reached.
\<close>

theorem getNextAvailableDay_scan_always_finds:
  assumes "distinct weekDays"
    and "length weekDays \<noteq> 0"
    and "\<not> card (set assignedDays) \<ge> length weekDays"
    and "index_of weekDays currentDay \<noteq> -1"
  shows "\<exists>d. scan_days (set assignedDays) weekDays (index_of weekDays currentDay) 1 = Some d
       \<and> getNextAvailableDay assignedDays weekDays currentDay = Some d
       \<and> d \<in> set weekDays \<and> d \<notin> set assignedDays"
proof -
  from assms have g: "weekDays \<noteq> []" "card (set assignedDays) < length weekDays"
    "currentDay \<in> set weekDays"
    by (simp_all add: index_of_minus_one)
  from next_day_found [OF assms(1) g] next_day_guards_pass [OF g] show ?thesis by auto
qed

theorem getNextAvailableDay_scan_always_finds_witness:
  "distinct week7 \<and> length week7 \<noteq> 0
   \<and> \<not> card (set [lit ''Fri'', lit ''Sun'']) \<ge> length week7
   \<and> index_of week7 (lit ''Fri'') \<noteq> -1
   \<and> (\<exists>d. scan_days (set [lit ''Fri'', lit ''Sun'']) week7 (index_of week7 (lit ''Fri'')) 1 = Some d
       \<and> getNextAvailableDay [lit ''Fri'', lit ''Sun''] week7 (lit ''Fri'') = Some d
       \<and> d \<in> set week7 \<and> d \<notin> set [lit ''Fri'', lit ''Sun''])
   \<and> getNextAvailableDay [lit ''Fri'', lit ''Sun''] week7 (lit ''Fri'') = Some (lit ''Sat'')"
proof -
  have h2: "length week7 \<noteq> 0" by (simp add: week7_facts)
  have h3: "\<not> card (set [lit ''Fri'', lit ''Sun'']) \<ge> length week7"
    by (simp add: week7_facts lit_def)
  have h4: "index_of week7 (lit ''Fri'') \<noteq> -1" by (simp add: index_of_week7_Fri)
  from getNextAvailableDay_scan_always_finds [OF week7_facts(1) h2 h3 h4]
    week7_facts(1) h2 h3 h4 next_day_after_Fri
  show ?thesis by blast
qed


end
